theory Spec2Isabelle
  imports Complex_Main
begin

section \<open>Python values used by \<^verbatim>\<open>generate_demo_gif.py\<close>\<close>

text \<open>
  A Python \<^verbatim>\<open>str\<close> is a sequence of Unicode code points, and \<^verbatim>\<open>len\<close>, indexing and
  slicing count code points. It is modelled as the list of its code points; an ASCII
  literal is written \<open>py_str ''...''\<close> and an escape \<^verbatim>\<open>\uXXXX\<close> as the one-element
  list \<open>[0xXXXX]\<close>.
\<close>

type_synonym pystr = "nat list"

definition py_str :: "string \<Rightarrow> pystr" where
  "py_str s = map of_char s"

text \<open>The exceptions that the modelled code can raise.\<close>

datatype exn = IndexError | OSError | OtherException

text \<open>
  \<^verbatim>\<open>xs[i]\<close>: positions \<open>0\<close> to \<open>len - 1\<close> read from the front, positions \<open>-len\<close> to
  \<open>-1\<close> from the back, and every other position raises \<^verbatim>\<open>IndexError\<close>.
\<close>

definition py_getitem :: "'a list \<Rightarrow> int \<Rightarrow> exn + 'a" where
  "py_getitem xs i =
     (if 0 \<le> i \<and> i < int (length xs) then Inr (xs ! nat i)
      else if i < 0 \<and> - int (length xs) \<le> i then Inr (xs ! nat (int (length xs) + i))
      else Inl IndexError)"

text \<open>\<^verbatim>\<open>xs[:n]\<close>: a negative bound counts from the end; the slice never raises.\<close>

definition py_slice_to :: "'a list \<Rightarrow> int \<Rightarrow> 'a list" where
  "py_slice_to xs n =
     (if n < 0 then take (nat (int (length xs) + n)) xs else take (nat n) xs)"

text \<open>\<^verbatim>\<open>xs[1:]\<close>.\<close>

definition py_slice_from1 :: "'a list \<Rightarrow> 'a list" where
  "py_slice_from1 xs = drop 1 xs"

text \<open>\<^verbatim>\<open>range(a, b)\<close>.\<close>

definition py_range :: "int \<Rightarrow> int \<Rightarrow> int list" where
  "py_range a b = map (\<lambda>k. a + int k) [0..<nat (b - a)]"

text \<open>\<^verbatim>\<open>s * n\<close> on a string.\<close>

definition py_repeat :: "pystr \<Rightarrow> int \<Rightarrow> pystr" where
  "py_repeat s n = concat (replicate (nat n) s)"

section \<open>Configuration\<close>

type_synonym color = "int \<times> int \<times> int"

definition WIDTH :: int where "WIDTH = 800"
definition HEIGHT :: int where "HEIGHT = 720"
definition BG_COLOR :: color where "BG_COLOR = (30, 30, 46)"
definition TEXT_COLOR :: color where "TEXT_COLOR = (205, 214, 244)"
definition DIM_COLOR :: color where "DIM_COLOR = (127, 132, 156)"
definition GREEN :: color where "GREEN = (166, 227, 161)"
definition CYAN :: color where "CYAN = (137, 220, 235)"
definition YELLOW :: color where "YELLOW = (249, 226, 175)"
definition MAGENTA :: color where "MAGENTA = (245, 194, 231)"
definition BLUE :: color where "BLUE = (137, 180, 250)"
definition WHITE :: color where "WHITE = (255, 255, 255)"
definition PROMPT_COLOR :: color where "PROMPT_COLOR = (166, 227, 161)"
definition BORDER_COLOR :: color where "BORDER_COLOR = (69, 71, 90)"

definition FONT_SIZE :: int where "FONT_SIZE = 15"
definition LINE_HEIGHT :: int where "LINE_HEIGHT = 22"
definition PADDING_X :: int where "PADDING_X = 24"
definition PADDING_Y :: int where "PADDING_Y = 50"
definition TITLE_BAR_H :: int where "TITLE_BAR_H = 38"

text \<open>
  \<^verbatim>\<open>OUTPUT_PATH\<close> is \<^verbatim>\<open>demo-cli.gif\<close> in the script's own directory; the directory
  is a parameter of the model.
\<close>

definition OUTPUT_PATH :: "pystr \<Rightarrow> pystr" where
  "OUTPUT_PATH script_dir = script_dir @ py_str ''/demo-cli.gif''"

section \<open>The imaging library\<close>

text \<open>
  Pillow is outside the repository. A bitmap is modelled by what the program asked
  Pillow to do: the mode, size and fill colour given to \<^verbatim>\<open>Image.new\<close>, followed by
  the drawing and conversion calls applied to it, in order. What the library itself
  computes (whether a font file loads, the bounding box of a text, the byte size of an
  encoded file) is a parameter, collected in the record \<open>pillow\<close>.
\<close>

datatype font = FreeTypeFont pystr int | DefaultFont

datatype mode = RGB | P

datatype quantize_method = MEDIANCUT | MAXCOVERAGE | FASTOCTREE | LIBIMAGEQUANT

datatype draw_op =
    Rectangle "int list" color
  | Line "int list" color int
  | Ellipse "int list" color
  | Text "int \<times> int" pystr color font
  | Quantize int quantize_method
  | Convert mode

record image =
  img_mode :: mode
  img_size :: "int \<times> int"
  img_fill :: color
  img_ops :: "draw_op list"

text \<open>The file that \<^verbatim>\<open>Image.save(..., save_all=True, ...)\<close> is asked to write.\<close>

record gif =
  gif_frames :: "image list"
  gif_duration :: "int list"
  gif_loop :: int
  gif_optimize :: bool

record pillow =
  truetype :: "pystr \<Rightarrow> int \<Rightarrow> exn + font"
  load_default :: font
  getbbox :: "font \<Rightarrow> pystr \<Rightarrow> int \<times> int \<times> int \<times> int"
  encoded_size :: "gif \<Rightarrow> nat"

definition Image_new :: "mode \<Rightarrow> int \<times> int \<Rightarrow> color \<Rightarrow> image" where
  "Image_new m sz c = \<lparr>img_mode = m, img_size = sz, img_fill = c, img_ops = []\<rparr>"

definition draw :: "draw_op \<Rightarrow> image \<Rightarrow> image" where
  "draw op img = img\<lparr>img_ops := img_ops img @ [op]\<rparr>"

definition quantize :: "int \<Rightarrow> quantize_method \<Rightarrow> image \<Rightarrow> image" where
  "quantize colors method img =
     img\<lparr>img_mode := P, img_ops := img_ops img @ [Quantize colors method]\<rparr>"

definition convert :: "mode \<Rightarrow> image \<Rightarrow> image" where
  "convert m img = img\<lparr>img_mode := m, img_ops := img_ops img @ [Convert m]\<rparr>"

section \<open>Font setup\<close>

record fonts =
  font :: font
  font_bold :: font
  font_title :: font

definition MENLO :: pystr where
  "MENLO = py_str ''/System/Library/Fonts/Menlo.ttc''"

text \<open>The body of the \<^verbatim>\<open>try\<close>: three loads in order, the first failure raises.\<close>

definition font_try :: "pillow \<Rightarrow> exn + fonts" where
  "font_try pil =
     (case truetype pil MENLO FONT_SIZE of
        Inl e \<Rightarrow> Inl e
      | Inr f \<Rightarrow>
          (case truetype pil MENLO FONT_SIZE of
             Inl e \<Rightarrow> Inl e
           | Inr fb \<Rightarrow>
               (case truetype pil MENLO 12 of
                  Inl e \<Rightarrow> Inl e
                | Inr ft \<Rightarrow> Inr \<lparr>font = f, font_bold = fb, font_title = ft\<rparr>)))"

text \<open>
  \<^verbatim>\<open>except Exception\<close>: every exception of the body is caught, and the handler
  rebinds all three names to the default font.
\<close>

definition font_setup :: "pillow \<Rightarrow> exn + fonts" where
  "font_setup pil =
     (case font_try pil of
        Inr fs \<Rightarrow> Inr fs
      | Inl e \<Rightarrow>
          (let f = load_default pil
           in Inr \<lparr>font = f, font_bold = f, font_title = f\<rparr>))"

section \<open>The canvas renderer\<close>

text \<open>
  A line of frame content is a \<^verbatim>\<open>str\<close>, a \<^verbatim>\<open>list\<close> of \<^verbatim>\<open>(text, color)\<close> tuples, or
  any other Python value, for which neither \<^verbatim>\<open>isinstance\<close> test holds.
\<close>

type_synonym segment = "pystr \<times> color"

datatype line = Str pystr | Segs "segment list" | Other

definition colors_dots :: "color list" where
  "colors_dots = [(255, 95, 86), (255, 189, 46), (39, 201, 63)]"

definition draw_dot :: "int \<times> color \<Rightarrow> image \<Rightarrow> image" where
  "draw_dot ic img =
     (let i = fst ic; c = snd ic;
          cx = 20 + i * 22;
          cy = TITLE_BAR_H div 2
      in draw (Ellipse [cx - 6, cy - 6, cx + 6, cy + 6] c) img)"

definition enumerate_list :: "'a list \<Rightarrow> (int \<times> 'a) list" where
  "enumerate_list xs = zip (map int [0..<length xs]) xs"

definition draw_title_bar :: "fonts \<Rightarrow> image \<Rightarrow> image" where
  "draw_title_bar fs img =
     (let img = draw (Rectangle [0, 0, WIDTH, TITLE_BAR_H] (40, 42, 54)) img;
          img = draw (Line [0, TITLE_BAR_H, WIDTH, TITLE_BAR_H] BORDER_COLOR 1) img;
          img = fold draw_dot (enumerate_list colors_dots) img;
          title = py_str ''Terminal -- markupr''
      in draw (Text (WIDTH div 2 - 70, 11) title DIM_COLOR (font_title fs)) img)"

text \<open>The inner loop of \<^verbatim>\<open>create_frame\<close>: the state is the image and the cursor \<open>x\<close>.\<close>

fun draw_segments ::
  "pillow \<Rightarrow> fonts \<Rightarrow> int \<Rightarrow> segment list \<Rightarrow> image \<times> int \<Rightarrow> image \<times> int" where
  "draw_segments pil fs y [] (img, x) = (img, x)"
| "draw_segments pil fs y (segment # rest) (img, x) =
     (let text = fst segment; color = snd segment;
          img = draw (Text (x, y) text color (font fs)) img;
          bbox = getbbox pil (font fs) text;
          x = x + (fst (snd (snd bbox)) - fst bbox)
      in draw_segments pil fs y rest (img, x))"

text \<open>The body of the outer loop, up to the increment of \<open>y\<close>.\<close>

definition draw_line :: "pillow \<Rightarrow> fonts \<Rightarrow> int \<Rightarrow> line \<Rightarrow> image \<Rightarrow> image" where
  "draw_line pil fs y line img =
     (let x = PADDING_X
      in case line of
           Str s \<Rightarrow> draw (Text (x, y) s TEXT_COLOR (font fs)) img
         | Segs segs \<Rightarrow> fst (draw_segments pil fs y segs (img, x))
         | Other \<Rightarrow> img)"

text \<open>The outer loop: the state is the image and the row position \<open>y\<close>.\<close>

fun draw_lines ::
  "pillow \<Rightarrow> fonts \<Rightarrow> line list \<Rightarrow> image \<times> int \<Rightarrow> image \<times> int" where
  "draw_lines pil fs [] (img, y) = (img, y)"
| "draw_lines pil fs (line # rest) (img, y) =
     (let img = draw_line pil fs y line img;
          y = y + LINE_HEIGHT
      in draw_lines pil fs rest (img, y))"

definition create_frame :: "pillow \<Rightarrow> fonts \<Rightarrow> line list \<Rightarrow> image" where
  "create_frame pil fs lines =
     (let img = Image_new RGB (WIDTH, HEIGHT) BG_COLOR;
          img = draw_title_bar fs img;
          y = PADDING_Y
      in fst (draw_lines pil fs lines (img, y)))"

definition build_cursor_line :: "pystr \<Rightarrow> int \<Rightarrow> line" where
  "build_cursor_line text typed_so_far =
     (let visible = py_slice_to text typed_so_far
      in Segs [(py_str ''$ '', PROMPT_COLOR), (visible, TEXT_COLOR), ([0x2588], WHITE)])"

section \<open>The sequence builder\<close>

text \<open>
  \<^verbatim>\<open>generate_frames\<close> appends pairs \<^verbatim>\<open>(create_frame(lines), duration)\<close> to the list
  \<^verbatim>\<open>frames\<close>. Its model takes the renderer as the parameter \<open>cf\<close>, so that the same
  definition gives the rendered sequence (with \<open>create_frame\<close>) and the sequence of
  frame contents that were rendered (with the identity).
\<close>

definition command :: pystr where
  "command = py_str ''npx markupr analyze ./demo-recording.mov''"

text \<open>Phase 0: the body of \<^verbatim>\<open>for _ in range(3)\<close>, and the loop.\<close>

definition idle_body :: "(line list \<Rightarrow> 'f) \<Rightarrow> ('f \<times> int) list \<Rightarrow> ('f \<times> int) list" where
  "idle_body cf frames =
     (let frames = frames @ [(cf [
            Segs [(py_str ''$ '', PROMPT_COLOR), ([0x2588], WHITE)]
          ], 400)];
          frames = frames @ [(cf [
            Segs [(py_str ''$ '', PROMPT_COLOR)]
          ], 300)]
      in frames)"

definition idle_blink ::
  "(line list \<Rightarrow> 'f) \<Rightarrow> int \<Rightarrow> ('f \<times> int) list \<Rightarrow> ('f \<times> int) list" where
  "idle_blink cf n frames = fold (\<lambda>_. idle_body cf) (py_range 0 n) frames"

text \<open>
  Phase 1: the delay chosen for keystroke \<open>i\<close>; \<^verbatim>\<open>command[i - 1]\<close> raises when out
  of range.
\<close>

definition typing_delay :: "pystr \<Rightarrow> int \<Rightarrow> exn + int" where
  "typing_delay cmd i =
     (case py_getitem cmd (i - 1) of
        Inl e \<Rightarrow> Inl e
      | Inr c \<Rightarrow>
          Inr (if [c] = py_str '' '' then 100
               else if i = int (length cmd) then 400
               else 45))"

text \<open>
  The loop \<^verbatim>\<open>for i in range(1, len(command) + 1)\<close>, over the remaining values of \<open>i\<close>.
\<close>

fun typing_loop ::
  "(line list \<Rightarrow> 'f) \<Rightarrow> pystr \<Rightarrow> int list \<Rightarrow> ('f \<times> int) list \<Rightarrow> exn + ('f \<times> int) list" where
  "typing_loop cf cmd [] frames = Inr frames"
| "typing_loop cf cmd (i # rest) frames =
     (let line = [build_cursor_line cmd i]
      in case typing_delay cmd i of
           Inl e \<Rightarrow> Inl e
         | Inr delay \<Rightarrow> typing_loop cf cmd rest (frames @ [(cf line, delay)]))"

definition typing_phase ::
  "(line list \<Rightarrow> 'f) \<Rightarrow> pystr \<Rightarrow> ('f \<times> int) list \<Rightarrow> exn + ('f \<times> int) list" where
  "typing_phase cf cmd frames =
     typing_loop cf cmd (py_range 1 (int (length cmd) + 1)) frames"

text \<open>
  The rest of \<^verbatim>\<open>generate_frames\<close>, from the command echo to the final hold. Each
  \<^verbatim>\<open>frames.append\<close> rebinds \<open>frames\<close>.
\<close>

definition staged_output ::
  "(line list \<Rightarrow> 'f) \<Rightarrow> pystr \<Rightarrow> ('f \<times> int) list \<Rightarrow> ('f \<times> int) list" where
  "staged_output cf cmd frames0 =
     (let full_cmd = Segs [(py_str ''$ '', PROMPT_COLOR), (cmd, TEXT_COLOR)];
          frames = frames0 @ [(cf [full_cmd], 600)];

          header_lines = [
            Segs [(py_str ''$ '', PROMPT_COLOR), (cmd, TEXT_COLOR)],
            Segs [],
            Segs [(py_str ''  markupr'', CYAN), (py_str '' v2.6.0'', DIM_COLOR),
                  (py_str '' '' @ [0x2014] @ py_str '' Intelligent Developer Feedback'', DIM_COLOR)],
            Segs []
          ];
          frames = frames @ [(cf header_lines, 800)];

          analyzing = header_lines @ [
            Segs [(py_str ''  '' @ [0x25B8] @ py_str '' '', YELLOW), (py_str ''Analyzing: '', TEXT_COLOR),
                  (py_str ''demo-recording.mov'', WHITE), (py_str '' (2m 34s)'', DIM_COLOR)],
            Segs []
          ];
          frames = frames @ [(cf analyzing, 1000)];

          base = analyzing;

          t1 = base @ [
            Segs [(py_str ''  '' @ [0x25A0] @ py_str '' '', CYAN), (py_str ''Transcription'', WHITE)]
          ];
          frames = frames @ [(cf t1, 500)];

          t2 = base @ [
            Segs [(py_str ''  '' @ [0x25A0] @ py_str '' '', CYAN), (py_str ''Transcription'', WHITE)],
            Segs [(py_str ''    '' @ [0x251C, 0x2500] @ py_str '' '', DIM_COLOR), (py_str ''Using: '', TEXT_COLOR),
                  (py_str ''Local Whisper (base model)'', BLUE)]
          ];
          frames = frames @ [(cf t2, 600)];

          t3 = base @ [
            Segs [(py_str ''  '' @ [0x25A0] @ py_str '' '', CYAN), (py_str ''Transcription'', WHITE)],
            Segs [(py_str ''    '' @ [0x251C, 0x2500] @ py_str '' '', DIM_COLOR), (py_str ''Using: '', TEXT_COLOR),
                  (py_str ''Local Whisper (base model)'', BLUE)],
            Segs [(py_str ''    '' @ [0x251C, 0x2500] @ py_str '' '', DIM_COLOR),
                  (py_str ''Processing audio...'', DIM_COLOR)]
          ];
          frames = frames @ [(cf t3, 1800)];

          t4 = base @ [
            Segs [(py_str ''  '' @ [0x25A0] @ py_str '' '', CYAN), (py_str ''Transcription'', WHITE)],
            Segs [(py_str ''    '' @ [0x251C, 0x2500] @ py_str '' '', DIM_COLOR), (py_str ''Using: '', TEXT_COLOR),
                  (py_str ''Local Whisper (base model)'', BLUE)],
            Segs [(py_str ''    '' @ [0x251C, 0x2500] @ py_str '' '', DIM_COLOR),
                  (py_str ''Processing audio...'', DIM_COLOR)],
            Segs [(py_str ''    '' @ [0x2514, 0x2500] @ py_str '' '', DIM_COLOR), ([0x2713] @ py_str '' '', GREEN),
                  (py_str ''12 segments transcribed (2m 34s)'', TEXT_COLOR)]
          ];
          frames = frames @ [(cf t4, 800)];

          base2 = t4 @ [
            Segs []
          ];

          f1 = base2 @ [
            Segs [(py_str ''  '' @ [0x25A0] @ py_str '' '', CYAN), (py_str ''Frame Extraction'', WHITE)]
          ];
          frames = frames @ [(cf f1, 500)];

          f2 = base2 @ [
            Segs [(py_str ''  '' @ [0x25A0] @ py_str '' '', CYAN), (py_str ''Frame Extraction'', WHITE)],
            Segs [(py_str ''    '' @ [0x251C, 0x2500] @ py_str '' '', DIM_COLOR),
                  (py_str ''Detecting key moments from transcript...'', DIM_COLOR)]
          ];
          frames = frames @ [(cf f2, 1200)];

          f3 = base2 @ [
            Segs [(py_str ''  '' @ [0x25A0] @ py_str '' '', CYAN), (py_str ''Frame Extraction'', WHITE)],
            Segs [(py_str ''    '' @ [0x251C, 0x2500] @ py_str '' '', DIM_COLOR),
                  (py_str ''Detecting key moments from transcript...'', DIM_COLOR)],
            Segs [(py_str ''    '' @ [0x251C, 0x2500] @ py_str '' '', DIM_COLOR),
                  (py_str ''Extracting frames at timestamps...'', DIM_COLOR)]
          ];
          frames = frames @ [(cf f3, 1400)];

          f4 = base2 @ [
            Segs [(py_str ''  '' @ [0x25A0] @ py_str '' '', CYAN), (py_str ''Frame Extraction'', WHITE)],
            Segs [(py_str ''    '' @ [0x251C, 0x2500] @ py_str '' '', DIM_COLOR),
                  (py_str ''Detecting key moments from transcript...'', DIM_COLOR)],
            Segs [(py_str ''    '' @ [0x251C, 0x2500] @ py_str '' '', DIM_COLOR),
                  (py_str ''Extracting frames at timestamps...'', DIM_COLOR)],
            Segs [(py_str ''    '' @ [0x2514, 0x2500] @ py_str '' '', DIM_COLOR), ([0x2713] @ py_str '' '', GREEN),
                  (py_str ''8 frames captured'', TEXT_COLOR)]
          ];
          frames = frames @ [(cf f4, 800)];

          base3 = f4 @ [
            Segs []
          ];

          d1 = base3 @ [
            Segs [(py_str ''  '' @ [0x25A0] @ py_str '' '', CYAN), (py_str ''Document Generation'', WHITE)]
          ];
          frames = frames @ [(cf d1, 500)];

          d2 = base3 @ [
            Segs [(py_str ''  '' @ [0x25A0] @ py_str '' '', CYAN), (py_str ''Document Generation'', WHITE)],
            Segs [(py_str ''    '' @ [0x251C, 0x2500] @ py_str '' '', DIM_COLOR),
                  (py_str ''Correlating screenshots with transcript...'', DIM_COLOR)]
          ];
          frames = frames @ [(cf d2, 1000)];

          d3 = base3 @ [
            Segs [(py_str ''  '' @ [0x25A0] @ py_str '' '', CYAN), (py_str ''Document Generation'', WHITE)],
            Segs [(py_str ''    '' @ [0x251C, 0x2500] @ py_str '' '', DIM_COLOR),
                  (py_str ''Correlating screenshots with transcript...'', DIM_COLOR)],
            Segs [(py_str ''    '' @ [0x251C, 0x2500] @ py_str '' '', DIM_COLOR),
                  (py_str ''Building structured markdown...'', DIM_COLOR)]
          ];
          frames = frames @ [(cf d3, 1200)];

          d4 = base3 @ [
            Segs [(py_str ''  '' @ [0x25A0] @ py_str '' '', CYAN), (py_str ''Document Generation'', WHITE)],
            Segs [(py_str ''    '' @ [0x251C, 0x2500] @ py_str '' '', DIM_COLOR),
                  (py_str ''Correlating screenshots with transcript...'', DIM_COLOR)],
            Segs [(py_str ''    '' @ [0x251C, 0x2500] @ py_str '' '', DIM_COLOR),
                  (py_str ''Building structured markdown...'', DIM_COLOR)],
            Segs [(py_str ''    '' @ [0x2514, 0x2500] @ py_str '' '', DIM_COLOR), ([0x2713] @ py_str '' '', GREEN),
                  (py_str ''Document ready'', TEXT_COLOR)]
          ];
          frames = frames @ [(cf d4, 800)];

          base4 = d4 @ [
            Segs []
          ];

          rule = py_repeat [0x2501] 43;
          s1 = base4 @ [
            Segs [(py_str ''  '', TEXT_COLOR), (rule, DIM_COLOR)]
          ];
          frames = frames @ [(cf s1, 600)];

          s2 = s1 @ [
            Segs [],
            Segs [(py_str ''  '' @ [0x2713] @ py_str '' '', GREEN), (py_str ''Output: '', TEXT_COLOR),
                  (py_str ''./markupr-output/demo-recording.md'', CYAN)]
          ];
          frames = frames @ [(cf s2, 800)];

          s3 = s2 @ [
            Segs [],
            Segs [(py_str ''    Markdown document with '', DIM_COLOR), (py_str ''8'', WHITE),
                  (py_str '' embedded screenshots'', DIM_COLOR)]
          ];
          frames = frames @ [(cf s3, 500)];

          s4 = s3 @ [
            Segs [(py_str ''    '', TEXT_COLOR), (py_str ''3'', WHITE), (py_str '' issues identified, '', DIM_COLOR),
                  (py_str ''2'', WHITE), (py_str '' suggestions captured'', DIM_COLOR)]
          ];
          frames = frames @ [(cf s4, 500)];

          s5 = s4 @ [
            Segs [(py_str ''    File path copied to clipboard'', DIM_COLOR)]
          ];
          frames = frames @ [(cf s5, 600)];

          s6 = s5 @ [
            Segs [],
            Segs [(py_str ''  Paste into your AI coding agent to action feedback '', DIM_COLOR),
                  ([0x2192], YELLOW)]
          ];
          frames = frames @ [(cf s6, 3000)]
      in frames)"

definition generate_frames_with :: "(line list \<Rightarrow> 'f) \<Rightarrow> exn + ('f \<times> int) list" where
  "generate_frames_with cf =
     (let frames = [];
          frames = idle_blink cf 3 frames
      in case typing_phase cf command frames of
           Inl e \<Rightarrow> Inl e
         | Inr frames \<Rightarrow> Inr (staged_output cf command frames))"

definition generate_frames :: "pillow \<Rightarrow> fonts \<Rightarrow> exn + (image \<times> int) list" where
  "generate_frames pil fs = generate_frames_with (create_frame pil fs)"

text \<open>The frame contents handed to the renderer, with their durations.\<close>

definition frame_contents :: "exn + (line list \<times> int) list" where
  "frame_contents = generate_frames_with (\<lambda>lines. lines)"

section \<open>The encoder, the size guard and the driver\<close>

text \<open>
  The world outside the process: the files written, by path, and the lines printed.
  A printed line is kept as its kind and the values formatted into it.
\<close>

datatype message =
    Generating_frames
  | Frames_generated nat
  | Saving_GIF
  | Saved_to pystr
  | Size_MB real
  | Dimensions int int
  | Frames nat
  | WARNING_exceeds_5MB
  | Optimized_size_MB real

record world =
  files :: "pystr \<rightharpoonup> gif"
  stdout :: "message list"

definition print :: "message \<Rightarrow> world \<Rightarrow> world" where
  "print m w = w\<lparr>stdout := stdout w @ [m]\<rparr>"

text \<open>
  \<^verbatim>\<open>first.save(path, save_all=True, append_images=..., duration=..., loop=...,
  optimize=...)\<close> replaces the file at \<open>path\<close>. The write is taken to succeed: a failing
  write raises out of \<^verbatim>\<open>main\<close> and nothing after it runs.
\<close>

definition save ::
  "pystr \<Rightarrow> image \<Rightarrow> image list \<Rightarrow> int list \<Rightarrow> int \<Rightarrow> bool \<Rightarrow> world \<Rightarrow> world" where
  "save path first append_images duration loop optimize w =
     w\<lparr>files := (files w)(path \<mapsto>
          \<lparr>gif_frames = first # append_images, gif_duration = duration,
           gif_loop = loop, gif_optimize = optimize\<rparr>)\<rparr>"

text \<open>\<^verbatim>\<open>os.path.getsize(path)\<close>: the byte size of the file, or an error when it is absent.\<close>

definition getsize :: "pillow \<Rightarrow> world \<Rightarrow> pystr \<Rightarrow> exn + nat" where
  "getsize pil w path =
     (case files w path of
        None \<Rightarrow> Inl OSError
      | Some g \<Rightarrow> Inr (encoded_size pil g))"

text \<open>
  \<^verbatim>\<open>size / (1024 * 1024)\<close> is a float division by a power of two: it is exact for a
  size below \<open>2 ^ 53\<close> and monotone above, so its comparison with \<open>5\<close> agrees with the
  comparison of the exact quotient, which the model uses.
\<close>

definition size_in_mb :: "nat \<Rightarrow> real" where
  "size_in_mb size_bytes = real size_bytes / (1024 * 1024)"

text \<open>The loop of \<^verbatim>\<open>optimize_gif\<close>: each image is quantized, converted and appended.\<close>

definition optimize_step :: "image \<Rightarrow> image list \<Rightarrow> image list" where
  "optimize_step img optimized = optimized @ [convert RGB (quantize 64 MEDIANCUT img)]"

definition optimize_gif ::
  "pillow \<Rightarrow> pystr \<Rightarrow> image list \<Rightarrow> int list \<Rightarrow> world \<Rightarrow> exn + world" where
  "optimize_gif pil path images durations w =
     (let optimized = fold optimize_step images []
      in case py_getitem optimized 0 of
           Inl e \<Rightarrow> Inl e
         | Inr first \<Rightarrow>
             (let w = save path first (py_slice_from1 optimized) durations 0 True w
              in case getsize pil w path of
                   Inl e \<Rightarrow> Inl e
                 | Inr size_bytes \<Rightarrow>
                     (let size_mb = size_in_mb size_bytes
                      in Inr (print (Optimized_size_MB size_mb) w))))"

definition main :: "pillow \<Rightarrow> fonts \<Rightarrow> pystr \<Rightarrow> world \<Rightarrow> exn + world" where
  "main pil fs script_dir w0 =
     (let w = print Generating_frames w0
      in case generate_frames pil fs of
           Inl e \<Rightarrow> Inl e
         | Inr frames \<Rightarrow>
             (let w = print (Frames_generated (length frames)) w;
                  images = map fst frames;
                  durations = map snd frames;
                  w = print Saving_GIF w
              in case py_getitem images 0 of
                   Inl e \<Rightarrow> Inl e
                 | Inr first \<Rightarrow>
                     (let w = save (OUTPUT_PATH script_dir) first (py_slice_from1 images)
                                durations 0 True w
                      in case getsize pil w (OUTPUT_PATH script_dir) of
                           Inl e \<Rightarrow> Inl e
                         | Inr size_bytes \<Rightarrow>
                             (let size_mb = size_in_mb size_bytes;
                                  w = print (Saved_to (OUTPUT_PATH script_dir)) w;
                                  w = print (Size_MB size_mb) w;
                                  w = print (Dimensions WIDTH HEIGHT) w;
                                  w = print (Frames (length frames)) w
                              in if size_mb > 5
                                 then (let w = print WARNING_exceeds_5MB w
                                       in optimize_gif pil (OUTPUT_PATH script_dir)
                                            images durations w)
                                 else Inr w))))"

text \<open>The script: the module-level font setup, then \<^verbatim>\<open>main()\<close>.\<close>

definition script :: "pillow \<Rightarrow> pystr \<Rightarrow> world \<Rightarrow> exn + world" where
  "script pil script_dir w =
     (case font_setup pil of
        Inl e \<Rightarrow> Inl e
      | Inr fs \<Rightarrow> main pil fs script_dir w)"

section \<open>Observations used in the statements\<close>

text \<open>The delay of keystroke \<open>i\<close>, when it is defined.\<close>

definition key_delay :: "pystr \<Rightarrow> int \<Rightarrow> int" where
  "key_delay cmd i = (case typing_delay cmd i of Inr d \<Rightarrow> d | Inl e \<Rightarrow> 0)"

text \<open>The row at which a text is drawn; \<open>None\<close> for any other operation.\<close>

fun text_row :: "draw_op \<Rightarrow> int option" where
  "text_row (Text xy t c f) = Some (snd xy)"
| "text_row _ = None"

text \<open>The width by which the cursor of \<^verbatim>\<open>create_frame\<close> advances after a text.\<close>

definition text_width :: "pillow \<Rightarrow> fonts \<Rightarrow> pystr \<Rightarrow> int" where
  "text_width pil fs text =
     (let bbox = getbbox pil (font fs) text
      in fst (snd (snd bbox)) - fst bbox)"

text \<open>What the loop body of \<^verbatim>\<open>create_frame\<close> draws for one line at row \<open>y\<close>.\<close>

definition row_ops :: "pillow \<Rightarrow> fonts \<Rightarrow> int \<Rightarrow> line \<Rightarrow> draw_op list" where
  "row_ops pil fs y line =
     img_ops (draw_line pil fs y line (Image_new RGB (WIDTH, HEIGHT) BG_COLOR))"

text \<open>The artifact that \<^verbatim>\<open>main\<close> writes first, and the one the re-encoder writes.\<close>

definition initial_gif :: "(image \<times> int) list \<Rightarrow> gif" where
  "initial_gif frames =
     \<lparr>gif_frames = map fst frames, gif_duration = map snd frames,
      gif_loop = 0, gif_optimize = True\<rparr>"


text \<open>
  The world after \<^verbatim>\<open>main\<close> has saved the first encoding and printed its report.
\<close>

definition first_saved :: "pillow \<Rightarrow> pystr \<Rightarrow> (image \<times> int) list \<Rightarrow> world \<Rightarrow> world" where
  "first_saved pil script_dir frames w =
     w\<lparr>files := (files w)(OUTPUT_PATH script_dir \<mapsto> initial_gif frames),
       stdout := stdout w @
        [Generating_frames, Frames_generated (length frames), Saving_GIF,
         Saved_to (OUTPUT_PATH script_dir),
         Size_MB (size_in_mb (encoded_size pil (initial_gif frames))),
         Dimensions WIDTH HEIGHT, Frames (length frames)]\<rparr>"

section \<open>A concrete environment\<close>

text \<open>
  An imaging library in which the preferred font file is missing, every glyph is nine
  pixels wide, and the encoder writes 6000000 bytes for frames as rendered and 7000000
  bytes once the first frame has been quantized and converted. It serves as the
  concrete input of the examples below.
\<close>

definition example_pillow :: pillow where
  "example_pillow =
     \<lparr>truetype = (\<lambda>path size. Inl OSError),
      load_default = DefaultFont,
      getbbox = (\<lambda>f text. (0, 0, 9 * int (length text), 15)),
      encoded_size = (\<lambda>g. case gif_frames g of
                              [] \<Rightarrow> 0
                            | img # _ \<Rightarrow>
                                if Convert RGB \<in> set (img_ops img) then 7000000 else 6000000)\<rparr>"

definition example_fonts :: fonts where
  "example_fonts = \<lparr>font = DefaultFont, font_bold = DefaultFont, font_title = DefaultFont\<rparr>"

definition empty_world :: world where
  "empty_world = \<lparr>files = Map.empty, stdout = []\<rparr>"

section \<open>The typing phase\<close>

lemma typing_delay_in_range:
  "1 \<le> i \<Longrightarrow> i \<le> int (length cmd) \<Longrightarrow>
   typing_delay cmd i =
     Inr (if [cmd ! nat (i - 1)] = py_str '' '' then 100
          else if i = int (length cmd) then 400 else 45)"
  by (simp add: typing_delay_def py_getitem_def Let_def)

lemma typing_loop_in_range:
  "\<forall>i \<in> set js. 1 \<le> i \<and> i \<le> int (length cmd) \<Longrightarrow>
   typing_loop cf cmd js frames =
     Inr (frames @ map (\<lambda>i. (cf [build_cursor_line cmd i], key_delay cmd i)) js)"
proof (induction js arbitrary: frames)
  case Nil
  show ?case by simp
next
  case (Cons i js)
  from Cons.prems have r: "1 \<le> i" "i \<le> int (length cmd)" by simp_all
  from Cons.prems have rest: "\<forall>i \<in> set js. 1 \<le> i \<and> i \<le> int (length cmd)" by simp
  show ?case
    using Cons.IH [OF rest] typing_delay_in_range [OF r]
    by (simp add: key_delay_def)
qed

lemma py_range_from_1: "py_range 1 (int n + 1) = map (\<lambda>k. int k + 1) [0..<n]"
  by (simp add: py_range_def)

lemma typing_phase_eq:
  "typing_phase cf cmd frames =
     Inr (frames @ map (\<lambda>k. (cf [build_cursor_line cmd (int k + 1)], key_delay cmd (int k + 1)))
                       [0..<length cmd])"
proof -
  have "\<forall>i \<in> set (map (\<lambda>k. int k + 1) [0..<length cmd]). 1 \<le> i \<and> i \<le> int (length cmd)"
    by auto
  from typing_loop_in_range [OF this] show ?thesis
    by (simp add: typing_phase_def py_range_from_1 comp_def)
qed

lemma build_cursor_line_prefix:
  "build_cursor_line cmd (int k + 1) =
     Segs [(py_str ''$ '', PROMPT_COLOR), (take (Suc k) cmd, TEXT_COLOR), ([0x2588], WHITE)]"
  by (simp add: build_cursor_line_def py_slice_to_def nat_add_distrib)

lemma key_delay_eq:
  "k < length cmd \<Longrightarrow>
   key_delay cmd (int k + 1) =
     (if cmd ! k = 32 then 100 else if Suc k = length cmd then 400 else 45)"
  by (auto simp add: key_delay_def typing_delay_in_range py_str_def)

lemma length_command: "length command = 40"
  by (simp add: command_def py_str_def)

lemma last_command: "command ! 39 = 118"
  by (simp add: command_def py_str_def)

text \<open>
  Claim C1. For a command of length \<open>N\<close>, the typing phase returns and appends exactly
  \<open>N\<close> frames to the sequence; the frame for keystroke \<open>k + 1\<close> (\<open>k < N\<close>) renders the
  single line \<^verbatim>\<open>"$ "\<close>, the prefix of the command of length \<open>k + 1\<close>, and the cursor
  glyph, so the visible prefix lengths are \<open>1, ..., N\<close> in order, and the last frame
  shows the whole command.
\<close>

theorem typing_phase_prefixes:
  "\<exists>fs. typing_phase cf cmd frames = Inr (frames @ fs) \<and> length fs = length cmd \<and>
     (\<forall>k<length cmd.
        fst (fs ! k) =
          cf [Segs [(py_str ''$ '', PROMPT_COLOR), (take (Suc k) cmd, TEXT_COLOR), ([0x2588], WHITE)]] \<and>
        length (take (Suc k) cmd) = Suc k \<and>
        (Suc k = length cmd \<longrightarrow> take (Suc k) cmd = cmd))"
  by (simp add: typing_phase_eq build_cursor_line_prefix)

theorem typing_phase_prefixes_witness:
  "\<exists>fs. typing_phase (\<lambda>lines. lines) command [] = Inr fs \<and> length fs = 40 \<and>
     fst (fs ! 39) = [Segs [(py_str ''$ '', PROMPT_COLOR), (command, TEXT_COLOR), ([0x2588], WHITE)]]"
proof -
  obtain fs where fs: "typing_phase (\<lambda>lines. lines) command [] = Inr ([] @ fs)"
      "length fs = length command"
      "\<forall>k<length command.
        fst (fs ! k) =
          [Segs [(py_str ''$ '', PROMPT_COLOR), (take (Suc k) command, TEXT_COLOR), ([0x2588], WHITE)]] \<and>
        length (take (Suc k) command) = Suc k \<and>
        (Suc k = length command \<longrightarrow> take (Suc k) command = command)"
    using typing_phase_prefixes [of "\<lambda>lines. lines" command "[]"] by blast
  from fs(3) have "fst (fs ! 39) =
      [Segs [(py_str ''$ '', PROMPT_COLOR), (take 40 command, TEXT_COLOR), ([0x2588], WHITE)]]"
    by (simp add: length_command)
  with fs(1,2) show ?thesis by (simp add: length_command)
qed

section \<open>The idle blink\<close>

lemma py_range_0_3: "py_range 0 3 = [0, 1, 2]"
  by (simp add: py_range_def upt_rec)

lemma idle_blink_3:
  "idle_blink cf 3 frames = idle_body cf (idle_body cf (idle_body cf frames))"
  by (simp add: idle_blink_def py_range_0_3)

lemma idle_blink_frames:
  "idle_blink cf 3 frames = frames @
     [(cf [Segs [(py_str ''$ '', PROMPT_COLOR), ([0x2588], WHITE)]], 400),
      (cf [Segs [(py_str ''$ '', PROMPT_COLOR)]], 300),
      (cf [Segs [(py_str ''$ '', PROMPT_COLOR), ([0x2588], WHITE)]], 400),
      (cf [Segs [(py_str ''$ '', PROMPT_COLOR)]], 300),
      (cf [Segs [(py_str ''$ '', PROMPT_COLOR), ([0x2588], WHITE)]], 400),
      (cf [Segs [(py_str ''$ '', PROMPT_COLOR)]], 300)]"
  by (simp add: idle_blink_3 idle_body_def)

lemma generate_frames_with_eq:
  "generate_frames_with cf =
     Inr (staged_output cf command
       (idle_blink cf 3 [] @
        map (\<lambda>k. (cf [build_cursor_line command (int k + 1)], key_delay command (int k + 1)))
            [0..<length command]))"
  by (simp add: generate_frames_with_def typing_phase_eq)

text \<open>
  Claim C6. The idle-blink phase with repeat count 3 yields exactly 6 frames, whose
  durations are 400, 300, 400, 300, 400, 300: 400 for each prompt-with-cursor frame,
  300 for each prompt-without-cursor frame. They are the first six frames of the
  generated sequence.
\<close>

theorem idle_blink_scenario:
  "length (idle_blink cf 3 []) = 6 \<and>
   map snd (idle_blink cf 3 []) = [400, 300, 400, 300, 400, 300] \<and>
   map fst (idle_blink cf 3 []) =
     [cf [Segs [(py_str ''$ '', PROMPT_COLOR), ([0x2588], WHITE)]],
      cf [Segs [(py_str ''$ '', PROMPT_COLOR)]],
      cf [Segs [(py_str ''$ '', PROMPT_COLOR), ([0x2588], WHITE)]],
      cf [Segs [(py_str ''$ '', PROMPT_COLOR)]],
      cf [Segs [(py_str ''$ '', PROMPT_COLOR), ([0x2588], WHITE)]],
      cf [Segs [(py_str ''$ '', PROMPT_COLOR)]]] \<and>
   (\<exists>fs. generate_frames_with cf = Inr fs \<and> take 6 fs = idle_blink cf 3 [])"
proof -
  have "\<exists>rest. staged_output cf command (idle_blink cf 3 [] @ typed) = idle_blink cf 3 [] @ rest" for typed
    by (simp add: staged_output_def Let_def)
  then obtain rest where "generate_frames_with cf = Inr (idle_blink cf 3 [] @ rest)"
    unfolding generate_frames_with_eq by blast
  moreover have "length (idle_blink cf 3 []) = 6" by (simp add: idle_blink_frames)
  ultimately have "\<exists>fs. generate_frames_with cf = Inr fs \<and> take 6 fs = idle_blink cf 3 []"
    by simp
  then show ?thesis by (simp add: idle_blink_frames)
qed

section \<open>The timing of the typing phase\<close>

lemma key_delay_interior:
  "Suc k < length cmd \<Longrightarrow> key_delay cmd (int k + 1) \<le> 100"
  by (simp add: key_delay_eq)

lemma command_0: "[command ! 0] \<noteq> py_str '' ''"
  by (simp add: command_def py_str_def)

lemma command_3: "[command ! 3] = py_str '' ''"
  by (simp add: command_def py_str_def)

lemma command_39: "[command ! 39] \<noteq> py_str '' ''"
  by (simp add: command_def py_str_def)

lemma is_space: "[c] = py_str '' '' \<longleftrightarrow> c = 32"
  by (simp add: py_str_def)

text \<open>
  Claim C5. In the typing phase of the program's command, a keystroke that is neither a
  space nor the last one is held for the default delay, 45 ms, and there is such a
  keystroke; a frame whose typed character is a space is held 100 ms, which is at least
  the default delay and at least the duration of every ordinary keystroke; the last
  typing frame is held 400 ms, strictly longer than every earlier typing frame.
\<close>

theorem typing_timing_policy:
  "\<exists>fs. typing_phase cf command frames = Inr (frames @ fs) \<and> length fs = length command \<and>
     (\<forall>k<length fs. [command ! k] \<noteq> py_str '' '' \<and> Suc k \<noteq> length fs \<longrightarrow> snd (fs ! k) = 45) \<and>
     (\<exists>k<length fs. [command ! k] \<noteq> py_str '' '' \<and> Suc k \<noteq> length fs) \<and>
     (\<forall>k<length fs. [command ! k] = py_str '' '' \<longrightarrow> snd (fs ! k) = 100 \<and> 45 \<le> snd (fs ! k)) \<and>
     (\<forall>j k. j < length fs \<and> k < length fs \<and> [command ! k] = py_str '' '' \<and>
            [command ! j] \<noteq> py_str '' '' \<and> Suc j \<noteq> length fs \<longrightarrow> snd (fs ! j) \<le> snd (fs ! k)) \<and>
     snd (fs ! (length fs - 1)) = 400 \<and>
     (\<forall>k. Suc k < length fs \<longrightarrow> snd (fs ! k) < snd (fs ! (length fs - 1)))"
proof -
  define fs where
    "fs = map (\<lambda>k. (cf [build_cursor_line command (int k + 1)], key_delay command (int k + 1)))
              [0..<length command]"
  have eq: "typing_phase cf command frames = Inr (frames @ fs)"
    unfolding fs_def by (rule typing_phase_eq)
  have len: "length fs = length command" by (simp add: fs_def)
  have nth: "snd (fs ! k) = key_delay command (int k + 1)" if "k < length command" for k
    using that by (simp add: fs_def)
  have delay: "snd (fs ! k) =
      (if [command ! k] = py_str '' '' then 100 else if Suc k = length fs then 400 else 45)"
    if "k < length fs" for k
    using that by (simp add: len nth key_delay_eq is_space)
  have "key_delay command (int 39 + 1) = 400"
    by (simp only: key_delay_eq [of 39 command] length_command last_command) simp
  then have fin: "snd (fs ! (length fs - 1)) = 400"
    using nth [of 39] by (simp add: len length_command)
  have interior: "\<forall>k. Suc k < length fs \<longrightarrow> snd (fs ! k) < snd (fs ! (length fs - 1))"
  proof (intro allI impI)
    fix k assume "Suc k < length fs"
    then have k: "Suc k < length command" by (simp add: len)
    then have "snd (fs ! k) \<le> 100" using key_delay_interior [OF k] nth [of k] by simp
    with fin show "snd (fs ! k) < snd (fs ! (length fs - 1))" by simp
  qed
  have ordinary: "\<forall>k<length fs. [command ! k] \<noteq> py_str '' '' \<and> Suc k \<noteq> length fs \<longrightarrow>
      snd (fs ! k) = 45"
    by (simp add: delay)
  have ex: "\<exists>k<length fs. [command ! k] \<noteq> py_str '' '' \<and> Suc k \<noteq> length fs"
    by (rule exI [of _ 0]) (simp add: len length_command command_0)
  have spaces: "\<forall>k<length fs. [command ! k] = py_str '' '' \<longrightarrow>
      snd (fs ! k) = 100 \<and> 45 \<le> snd (fs ! k)"
    by (simp add: delay)
  have cmp: "\<forall>j k. j < length fs \<and> k < length fs \<and> [command ! k] = py_str '' '' \<and>
            [command ! j] \<noteq> py_str '' '' \<and> Suc j \<noteq> length fs \<longrightarrow> snd (fs ! j) \<le> snd (fs ! k)"
    by (simp add: delay)
  from eq len ordinary ex spaces cmp fin interior show ?thesis by blast
qed

theorem typing_timing_policy_witness:
  "\<exists>fs. typing_phase (\<lambda>lines. lines) command [] = Inr fs \<and> length fs = 40 \<and>
     [command ! 0] \<noteq> py_str '' '' \<and> snd (fs ! 0) = 45 \<and>
     [command ! 3] = py_str '' '' \<and> snd (fs ! 3) = 100 \<and> snd (fs ! 0) \<le> snd (fs ! 3) \<and>
     snd (fs ! 39) = 400 \<and> snd (fs ! 3) < snd (fs ! 39) \<and> snd (fs ! 0) < snd (fs ! 39)"
proof -
  obtain fs where fs: "typing_phase (\<lambda>lines. lines) command [] = Inr ([] @ fs)"
      "length fs = length command"
      "\<forall>k<length fs. [command ! k] \<noteq> py_str '' '' \<and> Suc k \<noteq> length fs \<longrightarrow> snd (fs ! k) = 45"
      "\<forall>k<length fs. [command ! k] = py_str '' '' \<longrightarrow> snd (fs ! k) = 100 \<and> 45 \<le> snd (fs ! k)"
      "\<forall>j k. j < length fs \<and> k < length fs \<and> [command ! k] = py_str '' '' \<and>
            [command ! j] \<noteq> py_str '' '' \<and> Suc j \<noteq> length fs \<longrightarrow> snd (fs ! j) \<le> snd (fs ! k)"
      "snd (fs ! (length fs - 1)) = 400"
      "\<forall>k. Suc k < length fs \<longrightarrow> snd (fs ! k) < snd (fs ! (length fs - 1))"
    using typing_timing_policy [of "\<lambda>lines. lines" "[]"] by blast
  have len: "length fs = 40" using fs(2) by (simp add: length_command)
  from fs(3) [rule_format, of 0] len command_0 have a: "snd (fs ! 0) = 45" by simp
  from fs(4) [rule_format, of 3] len command_3 have b: "snd (fs ! 3) = 100" by simp
  from fs(5) [rule_format, of 0 3] len command_0 command_3
  have c: "snd (fs ! 0) \<le> snd (fs ! 3)" by simp
  from fs(6) len have d: "snd (fs ! 39) = 400" by simp
  from fs(7) [rule_format, of 3] len have e: "snd (fs ! 3) < snd (fs ! 39)" by simp
  from fs(7) [rule_format, of 0] len have f: "snd (fs ! 0) < snd (fs ! 39)" by simp
  from fs(1) len a b c d e f command_0 command_3 show ?thesis by simp
qed

section \<open>The staged output and the whole sequence\<close>

lemma staged_output_durations:
  "map snd (staged_output cf cmd frames0) = map snd frames0 @
     [600, 800, 1000, 500, 600, 1800, 800, 500, 1200, 1400, 800,
      500, 1000, 1200, 800, 600, 800, 500, 500, 600, 3000]"
  by (simp add: staged_output_def Let_def)

lemma staged_output_line_counts:
  "map (\<lambda>f. length (fst f)) (staged_output (\<lambda>lines. lines) cmd frames0) =
     map (\<lambda>f. length (fst f)) frames0 @
     [1, 4, 6, 7, 8, 9, 10, 12, 13, 14, 15, 17, 18, 19, 20, 22, 24, 26, 27, 28, 30]"
  by (simp add: staged_output_def Let_def)

lemma staged_output_natural:
  "staged_output cf cmd (map (\<lambda>f. (cf (fst f), snd f)) frames0) =
     map (\<lambda>f. (cf (fst f), snd f)) (staged_output (\<lambda>lines. lines) cmd frames0)"
  by (simp add: staged_output_def Let_def)

lemma generate_frames_with_natural:
  "generate_frames_with cf =
     map_sum (\<lambda>e. e) (map (\<lambda>f. (cf (fst f), snd f))) frame_contents"
proof -
  have pre: "idle_blink cf 3 [] @
        map (\<lambda>k. (cf [build_cursor_line command (int k + 1)], key_delay command (int k + 1)))
            [0..<length command] =
        map (\<lambda>f. (cf (fst f), snd f))
          (idle_blink (\<lambda>lines. lines) 3 [] @
           map (\<lambda>k. ([build_cursor_line command (int k + 1)], key_delay command (int k + 1)))
               [0..<length command])"
    by (simp add: idle_blink_frames comp_def)
  show ?thesis
    unfolding frame_contents_def generate_frames_with_eq pre
    by (simp only: staged_output_natural map_sum.simps)
qed


lemma frame_contents_eq:
  "frame_contents =
     Inr (staged_output (\<lambda>lines. lines) command
       (idle_blink (\<lambda>lines. lines) 3 [] @
        map (\<lambda>k. ([build_cursor_line command (int k + 1)], key_delay command (int k + 1)))
            [0..<length command]))"
  unfolding frame_contents_def by (rule generate_frames_with_eq)

lemma frame_contents_line_counts:
  "\<exists>fs. frame_contents = Inr fs \<and>
     map (\<lambda>f. length (fst f)) fs =
       replicate 46 1 @
       [1, 4, 6, 7, 8, 9, 10, 12, 13, 14, 15, 17, 18, 19, 20, 22, 24, 26, 27, 28, 30]"
proof -
  have idle: "map (\<lambda>f. length (fst f)) (idle_blink (\<lambda>lines. lines) 3 []) = replicate 6 1"
    by (simp add: idle_blink_frames numeral_eq_Suc)
  have typed: "map (\<lambda>f. length (fst f))
          (map (\<lambda>k. ([build_cursor_line command (int k + 1)], key_delay command (int k + 1)))
               [0..<length command]) = replicate 40 1"
    by (simp add: comp_def length_command map_replicate_const del: replicate.simps)
  have "replicate 6 (1::nat) @ replicate 40 1 = replicate 46 1"
    by (simp add: replicate_add [symmetric] del: replicate.simps)
  then have "map (\<lambda>f. length (fst f))
          (idle_blink (\<lambda>lines. lines) 3 [] @
           map (\<lambda>k. ([build_cursor_line command (int k + 1)], key_delay command (int k + 1)))
               [0..<length command]) = replicate 46 1"
    by (simp only: map_append idle typed)
  then have "map (\<lambda>f. length (fst f))
          (staged_output (\<lambda>lines. lines) command
            (idle_blink (\<lambda>lines. lines) 3 [] @
             map (\<lambda>k. ([build_cursor_line command (int k + 1)], key_delay command (int k + 1)))
                 [0..<length command])) =
        replicate 46 1 @
        [1, 4, 6, 7, 8, 9, 10, 12, 13, 14, 15, 17, 18, 19, 20, 22, 24, 26, 27, 28, 30]"
    by (simp only: staged_output_line_counts)
  with frame_contents_eq show ?thesis by blast
qed

lemma sorted_line_counts:
  "sorted (replicate 46 (1::nat) @
       [1, 4, 6, 7, 8, 9, 10, 12, 13, 14, 15, 17, 18, 19, 20, 22, 24, 26, 27, 28, 30])"
  by (simp add: sorted_append del: replicate.simps)

text \<open>
  Claim C3. The generated sequence is the rendering, frame by frame, of a sequence of
  frame contents, and the number of lines of these contents never decreases: from each
  frame to the next, and hence from any frame to any later one.
\<close>

theorem line_counts_never_decrease:
  "\<exists>fs. frame_contents = Inr fs \<and>
     generate_frames pil fnts = Inr (map (\<lambda>f. (create_frame pil fnts (fst f), snd f)) fs) \<and>
     (\<forall>k. Suc k < length fs \<longrightarrow> length (fst (fs ! k)) \<le> length (fst (fs ! Suc k))) \<and>
     (\<forall>j k. j \<le> k \<and> k < length fs \<longrightarrow> length (fst (fs ! j)) \<le> length (fst (fs ! k)))"
proof -
  obtain fs where fs: "frame_contents = Inr fs"
    and counts: "map (\<lambda>f. length (fst f)) fs =
       replicate 46 1 @
       [1, 4, 6, 7, 8, 9, 10, 12, 13, 14, 15, 17, 18, 19, 20, 22, 24, 26, 27, 28, 30]"
    using frame_contents_line_counts by blast
  have srt: "sorted (map (\<lambda>f. length (fst f)) fs)"
    unfolding counts by (rule sorted_line_counts)
  have mono: "length (fst (fs ! j)) \<le> length (fst (fs ! k))" if "j \<le> k" "k < length fs" for j k
    using sorted_nth_mono [OF srt, of j k] that by simp
  have gen: "generate_frames pil fnts = Inr (map (\<lambda>f. (create_frame pil fnts (fst f), snd f)) fs)"
    by (simp add: generate_frames_def generate_frames_with_natural fs)
  from fs gen mono show ?thesis by (intro exI [of _ fs]) simp
qed

theorem line_counts_never_decrease_witness:
  "\<exists>fs. frame_contents = Inr fs \<and> length fs = 67 \<and>
     length (fst (fs ! 46)) \<le> length (fst (fs ! 47)) \<and>
     length (fst (fs ! 5)) \<le> length (fst (fs ! 66))"
proof -
  obtain fs where fs: "frame_contents = Inr fs"
    and mono: "\<forall>j k. j \<le> k \<and> k < length fs \<longrightarrow> length (fst (fs ! j)) \<le> length (fst (fs ! k))"
    using line_counts_never_decrease [of example_pillow example_fonts] by blast
  obtain fs' where fs': "frame_contents = Inr fs'"
    and counts: "map (\<lambda>f. length (fst f)) fs' =
       replicate 46 1 @
       [1, 4, 6, 7, 8, 9, 10, 12, 13, 14, 15, 17, 18, 19, 20, 22, 24, 26, 27, 28, 30]"
    using frame_contents_line_counts by blast
  from fs' [symmetric] fs have "(Inr fs' :: exn + (line list \<times> int) list) = Inr fs"
    by (rule trans)
  then have "fs' = fs" by (simp only: sum.inject)
  with counts have "length (map (\<lambda>f. length (fst f)) fs) =
      length (replicate 46 (1::nat) @
       [1, 4, 6, 7, 8, 9, 10, 12, 13, 14, 15, 17, 18, 19, 20, 22, 24, 26, 27, 28, 30])"
    by simp
  then have len: "length fs = 67" by (simp del: replicate.simps)
  from mono [rule_format, of 46 47] len
  have a: "length (fst (fs ! 46)) \<le> length (fst (fs ! 47))" by simp
  from mono [rule_format, of 5 66] len
  have b: "length (fst (fs ! 5)) \<le> length (fst (fs ! 66))" by simp
  from fs len a b show ?thesis by blast
qed

section \<open>The final hold\<close>

lemma key_delay_bound: "k < length cmd \<Longrightarrow> key_delay cmd (int k + 1) \<le> 400"
  by (simp add: key_delay_eq)

lemma frame_durations:
  "\<exists>fs ds. generate_frames_with cf = Inr fs \<and> map snd fs = ds @ [3000] \<and>
     (\<forall>d \<in> set ds. d \<le> 1800)"
proof -
  let ?typed = "map (\<lambda>k. (cf [build_cursor_line command (int k + 1)], key_delay command (int k + 1)))
                    [0..<length command]"
  let ?fs = "staged_output cf command (idle_blink cf 3 [] @ ?typed)"
  let ?ds = "map snd (idle_blink cf 3 [] @ ?typed) @
     [600, 800, 1000, 500, 600, 1800, 800, 500, 1200, 1400, 800,
      500, 1000, 1200, 800, 600, 800, 500, 500, 600]"
  have a: "map snd ?fs = ?ds @ [3000]"
    by (simp only: staged_output_durations) simp
  have typed: "\<forall>d \<in> set (map snd ?typed). d \<le> 1800"
  proof
    fix d assume "d \<in> set (map snd ?typed)"
    then obtain k where "k < length command" "d = key_delay command (int k + 1)" by auto
    then show "d \<le> 1800" using key_delay_bound [of k command] by simp
  qed
  have idle: "\<forall>d \<in> set (map snd (idle_blink cf 3 [])). d \<le> 1800"
    by (simp add: idle_blink_frames)
  have b: "\<forall>d \<in> set ?ds. d \<le> 1800"
    using typed idle by (simp only: set_append map_append ball_Un) simp
  from a b generate_frames_with_eq [of cf] show ?thesis by blast
qed

lemma staged_output_length:
  "length (staged_output cf cmd frames0) = length frames0 + 21"
proof -
  have "length (map snd (staged_output cf cmd frames0)) = length (map snd frames0) + 21"
    by (simp only: staged_output_durations length_append) simp
  then show ?thesis by simp
qed

lemma generate_frames_with_length:
  "generate_frames_with cf = Inr fs \<Longrightarrow> length fs = 67"
  unfolding generate_frames_with_eq
  by (auto simp add: staged_output_length idle_blink_frames length_command)

text \<open>
  Claim C7. The generated sequence is not empty, its last frame is held for 3000 ms,
  and every other frame of the sequence has a strictly smaller duration.
\<close>

theorem final_frame_held_longest:
  "\<exists>fs. generate_frames pil fnts = Inr fs \<and> fs \<noteq> [] \<and> snd (last fs) = 3000 \<and>
     (\<forall>k. Suc k < length fs \<longrightarrow> snd (fs ! k) < snd (last fs))"
proof -
  obtain fs ds where fs: "generate_frames pil fnts = Inr fs"
    and ds: "map snd fs = ds @ [3000]" and bound: "\<forall>d \<in> set ds. d \<le> 1800"
    unfolding generate_frames_def using frame_durations by blast
  from ds have ne: "fs \<noteq> []" by auto
  from ds have len: "length fs = Suc (length ds)"
    using length_map [of snd fs] by simp
  have "snd (last fs) = last (map snd fs)" using ne by (simp add: last_map)
  with ds have lst: "snd (last fs) = 3000" by simp
  have "snd (fs ! k) < snd (last fs)" if "Suc k < length fs" for k
  proof -
    from that len have k: "k < length ds" by simp
    have "snd (fs ! k) = map snd fs ! k" using that by simp
    also have "\<dots> = ds ! k" using k by (simp add: ds nth_append)
    finally have "snd (fs ! k) \<in> set ds" using k by simp
    with bound have "snd (fs ! k) \<le> 1800" by blast
    with lst show ?thesis by simp
  qed
  with fs ne lst show ?thesis by blast
qed

theorem final_frame_held_longest_witness:
  "\<exists>fs. generate_frames example_pillow example_fonts = Inr fs \<and> length fs = 67 \<and>
     snd (fs ! 0) < snd (last fs) \<and> snd (fs ! 65) < snd (last fs)"
proof -
  obtain fs where fs: "generate_frames example_pillow example_fonts = Inr fs"
    and held: "\<forall>k. Suc k < length fs \<longrightarrow> snd (fs ! k) < snd (last fs)"
    using final_frame_held_longest [of example_pillow example_fonts] by blast
  from fs have len: "length fs = 67"
    unfolding generate_frames_def by (rule generate_frames_with_length)
  from held [rule_format, of 0] len have a: "snd (fs ! 0) < snd (last fs)" by simp
  from held [rule_format, of 65] len have b: "snd (fs ! 65) < snd (last fs)" by simp
  from fs len a b show ?thesis by blast
qed

section \<open>Frames of one size\<close>

lemma draw_keeps: "img_size (draw op img) = img_size img" "img_mode (draw op img) = img_mode img"
  by (simp_all add: draw_def)

lemma draw_segments_keeps:
  "img_size (fst (draw_segments pil fnts y segs (img, x))) = img_size img \<and>
   img_mode (fst (draw_segments pil fnts y segs (img, x))) = img_mode img"
  by (induction segs arbitrary: img x) (simp_all add: Let_def draw_keeps)

lemma draw_line_keeps:
  "img_size (draw_line pil fnts y line img) = img_size img \<and>
   img_mode (draw_line pil fnts y line img) = img_mode img"
  by (cases line) (simp_all add: draw_line_def draw_keeps draw_segments_keeps)

lemma draw_lines_keeps:
  "img_size (fst (draw_lines pil fnts lines (img, y))) = img_size img \<and>
   img_mode (fst (draw_lines pil fnts lines (img, y))) = img_mode img"
  by (induction lines arbitrary: img y) (simp_all add: Let_def draw_line_keeps)

lemma draw_dots_keeps:
  "img_size (fold draw_dot dots img) = img_size img \<and>
   img_mode (fold draw_dot dots img) = img_mode img"
  by (induction dots arbitrary: img) (simp_all add: draw_dot_def Let_def draw_keeps)

lemma draw_title_bar_keeps:
  "img_size (draw_title_bar fnts img) = img_size img \<and>
   img_mode (draw_title_bar fnts img) = img_mode img"
  by (simp add: draw_title_bar_def Let_def draw_keeps draw_dots_keeps)

lemma create_frame_size:
  "img_size (create_frame pil fnts lines) = (800, 720) \<and>
   img_mode (create_frame pil fnts lines) = RGB"
  by (simp add: create_frame_def Let_def draw_lines_keeps draw_title_bar_keeps Image_new_def
        WIDTH_def HEIGHT_def)

text \<open>
  Claim C4. Whatever frame content is passed, the renderer returns a bitmap of the
  configured size, 800 by 720; the generated sequence exists, the list of its frames and
  the list of its durations have the same length, and every frame has that size.
\<close>

theorem frames_well_formed:
  "img_size (create_frame pil fnts lines) = (WIDTH, HEIGHT) \<and> (WIDTH, HEIGHT) = (800, 720) \<and>
   (\<exists>frames. generate_frames pil fnts = Inr frames \<and>
      length (map fst frames) = length (map snd frames) \<and>
      (\<forall>img \<in> set (map fst frames). img_size img = (800, 720)))"
proof -
  obtain fs where fs: "frame_contents = Inr fs"
    using frame_contents_eq by blast
  have gen: "generate_frames pil fnts = Inr (map (\<lambda>f. (create_frame pil fnts (fst f), snd f)) fs)"
    unfolding generate_frames_def generate_frames_with_natural fs by simp
  have "\<forall>img \<in> set (map fst (map (\<lambda>f. (create_frame pil fnts (fst f), snd f)) fs)).
          img_size img = (800, 720)"
    by (auto simp add: create_frame_size)
  with gen show ?thesis
    by (simp add: create_frame_size WIDTH_def HEIGHT_def)
qed

theorem frames_well_formed_witness:
  "\<exists>frames. generate_frames example_pillow example_fonts = Inr frames \<and> length frames = 67 \<and>
     img_size (fst (frames ! 0)) = (800, 720) \<and> img_size (fst (frames ! 66)) = (800, 720)"
proof -
  obtain frames where fs: "generate_frames example_pillow example_fonts = Inr frames"
    and sz: "\<forall>img \<in> set (map fst frames). img_size img = (800, 720)"
    using frames_well_formed [of example_pillow example_fonts "[]"] by blast
  from fs have len: "length frames = 67"
    unfolding generate_frames_def by (rule generate_frames_with_length)
  have "fst (frames ! 0) \<in> set (map fst frames)" "fst (frames ! 66) \<in> set (map fst frames)"
    using len by simp_all
  with sz have "img_size (fst (frames ! 0)) = (800, 720)" "img_size (fst (frames ! 66)) = (800, 720)"
    by blast+
  with fs len show ?thesis by blast
qed

section \<open>Rows of the renderer\<close>

lemma draw_lines_row:
  "snd (draw_lines pil fnts lines (img, y)) = y + int (length lines) * LINE_HEIGHT"
  by (induction lines arbitrary: img y) (simp_all add: Let_def algebra_simps)

lemma draw_lines_fold:
  "fst (draw_lines pil fnts lines (img, y)) =
     fold (\<lambda>k. draw_line pil fnts (y + int k * LINE_HEIGHT) (lines ! k)) [0..<length lines] img"
proof (induction lines arbitrary: img y)
  case Nil
  show ?case by simp
next
  case (Cons line rest)
  have "[0..<length (line # rest)] = 0 # map Suc [0..<length rest]"
    by (simp add: upt_conv_Cons map_Suc_upt del: upt_Suc)
  then show ?case
    by (simp add: Let_def Cons.IH fold_map comp_def algebra_simps del: upt_Suc)
qed

lemma draw_segments_ops:
  "\<exists>ops. img_ops (fst (draw_segments pil fnts y segs (img, x))) = img_ops img @ ops \<and>
     length ops = length segs \<and> (\<forall>op \<in> set ops. text_row op = Some y)"
proof (induction segs arbitrary: img x)
  case Nil
  show ?case by simp
next
  case (Cons segment rest)
  let ?img = "draw (Text (x, y) (fst segment) (snd segment) (font fnts)) img"
  let ?x = "x + (fst (snd (snd (getbbox pil (font fnts) (fst segment)))) -
                 fst (getbbox pil (font fnts) (fst segment)))"
  obtain ops where ops: "img_ops (fst (draw_segments pil fnts y rest (?img, ?x))) = img_ops ?img @ ops"
      "length ops = length rest" "\<forall>op \<in> set ops. text_row op = Some y"
    using Cons.IH [of ?img ?x] by blast
  have step: "draw_segments pil fnts y (segment # rest) (img, x) =
      draw_segments pil fnts y rest (?img, ?x)"
    by (simp add: Let_def)
  have first: "img_ops ?img = img_ops img @ [Text (x, y) (fst segment) (snd segment) (font fnts)]"
    by (simp add: draw_def)
  show ?case
    unfolding step ops(1) first
    by (rule exI [of _ "Text (x, y) (fst segment) (snd segment) (font fnts) # ops"])
       (simp add: ops(2,3))
qed

lemma draw_line_ops:
  "\<exists>ops. img_ops (draw_line pil fnts y line img) = img_ops img @ ops \<and>
     (\<forall>op \<in> set ops. text_row op = Some y)"
proof (cases line)
  case (Str s)
  then show ?thesis by (simp add: draw_line_def draw_def)
next
  case (Segs segs)
  then show ?thesis using draw_segments_ops [of pil fnts y segs img PADDING_X]
    by (auto simp add: draw_line_def)
next
  case Other
  then show ?thesis by (simp add: draw_line_def)
qed


lemma draw_segments_exact:
  "fst (draw_segments pil fnts y segs (img, x)) =
     img\<lparr>img_ops := img_ops img @
       map (\<lambda>i. Text (x + sum_list (map (\<lambda>sg. text_width pil fnts (fst sg)) (take i segs)), y)
                    (fst (segs ! i)) (snd (segs ! i)) (font fnts))
           [0..<length segs]\<rparr>"
proof (induction segs arbitrary: img x)
  case Nil
  show ?case by simp
next
  case (Cons segment rest)
  have upt: "[0..<length (segment # rest)] = 0 # map Suc [0..<length rest]"
    by (simp add: upt_conv_Cons map_Suc_upt del: upt_Suc)
  show ?case
    unfolding upt
    by (simp add: Let_def Cons.IH draw_def text_width_def comp_def algebra_simps del: upt_Suc)
qed

lemma draw_line_exact:
  "draw_line pil fnts y (Str s) img =
     img\<lparr>img_ops := img_ops img @ [Text (PADDING_X, y) s TEXT_COLOR (font fnts)]\<rparr>"
  "draw_line pil fnts y (Segs segs) img =
     img\<lparr>img_ops := img_ops img @
       map (\<lambda>i. Text (PADDING_X + sum_list (map (\<lambda>sg. text_width pil fnts (fst sg)) (take i segs)), y)
                    (fst (segs ! i)) (snd (segs ! i)) (font fnts))
           [0..<length segs]\<rparr>"
  "draw_line pil fnts y (Segs []) img = img"
  "draw_line pil fnts y Other img = img"
  by (simp_all add: draw_line_def draw_def draw_segments_exact)


lemma row_ops_exact:
  "row_ops pil fnts y (Str s) = [Text (PADDING_X, y) s TEXT_COLOR (font fnts)]"
  "row_ops pil fnts y (Segs segs) =
     map (\<lambda>i. Text (PADDING_X + sum_list (map (\<lambda>sg. text_width pil fnts (fst sg)) (take i segs)), y)
                  (fst (segs ! i)) (snd (segs ! i)) (font fnts))
         [0..<length segs]"
  "row_ops pil fnts y (Segs []) = []"
  "row_ops pil fnts y Other = []"
  by (simp_all add: row_ops_def draw_line_exact Image_new_def)

lemma draw_line_row_ops:
  "draw_line pil fnts y line img = img\<lparr>img_ops := img_ops img @ row_ops pil fnts y line\<rparr>"
proof (cases line)
  case (Str s)
  then show ?thesis by (simp add: draw_line_exact(1) row_ops_exact(1))
next
  case (Segs segs)
  then show ?thesis by (simp only: draw_line_exact(2) row_ops_exact(2))
next
  case Other
  then show ?thesis by (simp add: draw_line_exact(4) row_ops_exact(4))
qed

lemma row_ops_rows: "\<forall>op \<in> set (row_ops pil fnts y line). text_row op = Some y"
  by (cases line) (auto simp add: row_ops_exact)

lemma fold_draw_line_ops:
  "img_ops (fold (\<lambda>k. draw_line pil fnts (f k) (g k)) ks img) =
     img_ops img @ concat (map (\<lambda>k. row_ops pil fnts (f k) (g k)) ks)"
  by (induction ks arbitrary: img) (simp_all add: draw_line_row_ops)

lemma create_frame_fold:
  "create_frame pil fnts lines =
     fold (\<lambda>k. draw_line pil fnts (PADDING_Y + int k * LINE_HEIGHT) (lines ! k)) [0..<length lines]
       (draw_title_bar fnts (Image_new RGB (WIDTH, HEIGHT) BG_COLOR))"
  by (simp add: create_frame_def Let_def draw_lines_fold)

text \<open>
  Claim C10. The renderer advances the row position by one row height, 22, for every
  element of the frame content, whatever its kind: after the loop the position is the
  start plus 22 times the number of elements, and element \<open>k\<close> is handled at row
  \<open>50 + 22 k\<close>. The frame holds, after the title bar, what each element draws at its
  row, in order: a string is drawn once at the left margin, 24, in the text colour; a
  segment list draws each segment in its colour, the first at the left margin and each
  next one further right by the width of the one before; all of it at the element's
  row. An empty segment list, and an element that is neither a string nor a list, draw
  nothing and leave the image unchanged, and still take their row.
\<close>

theorem renderer_row_advance:
  "PADDING_X = 24 \<and> PADDING_Y = 50 \<and> LINE_HEIGHT = 22 \<and>
   snd (draw_lines pil fnts lines (img, y)) = y + int (length lines) * LINE_HEIGHT \<and>
   create_frame pil fnts lines =
     fold (\<lambda>k. draw_line pil fnts (PADDING_Y + int k * LINE_HEIGHT) (lines ! k)) [0..<length lines]
       (draw_title_bar fnts (Image_new RGB (WIDTH, HEIGHT) BG_COLOR)) \<and>
   img_ops (create_frame pil fnts lines) =
     img_ops (draw_title_bar fnts (Image_new RGB (WIDTH, HEIGHT) BG_COLOR)) @
     concat (map (\<lambda>k. row_ops pil fnts (PADDING_Y + int k * LINE_HEIGHT) (lines ! k))
                 [0..<length lines]) \<and>
   draw_line pil fnts y line img = img\<lparr>img_ops := img_ops img @ row_ops pil fnts y line\<rparr> \<and>
   row_ops pil fnts y (Str s) = [Text (PADDING_X, y) s TEXT_COLOR (font fnts)] \<and>
   row_ops pil fnts y (Segs segs) =
     map (\<lambda>i. Text (PADDING_X + sum_list (map (\<lambda>sg. text_width pil fnts (fst sg)) (take i segs)), y)
                  (fst (segs ! i)) (snd (segs ! i)) (font fnts))
         [0..<length segs] \<and>
   row_ops pil fnts y (Segs []) = [] \<and>
   row_ops pil fnts y Other = [] \<and>
   (\<forall>op \<in> set (row_ops pil fnts y line). text_row op = Some y) \<and>
   draw_line pil fnts y (Segs []) img = img \<and>
   draw_line pil fnts y Other img = img"
proof -
  have ops: "img_ops (create_frame pil fnts lines) =
     img_ops (draw_title_bar fnts (Image_new RGB (WIDTH, HEIGHT) BG_COLOR)) @
     concat (map (\<lambda>k. row_ops pil fnts (PADDING_Y + int k * LINE_HEIGHT) (lines ! k))
                 [0..<length lines])"
    unfolding create_frame_fold by (rule fold_draw_line_ops)
  from ops create_frame_fold [of pil fnts lines] draw_lines_row [of pil fnts lines img y]
    draw_line_row_ops [of pil fnts y line img] row_ops_exact [of pil fnts y]
    row_ops_rows [of pil fnts y line] draw_line_exact(3,4) [of pil fnts y img]
  show ?thesis by (simp add: PADDING_X_def PADDING_Y_def LINE_HEIGHT_def)
qed


theorem renderer_row_advance_witness:
  "img_ops (create_frame example_pillow example_fonts
      [Str (py_str ''a''), Segs [], Other, Segs [(py_str ''$ '', PROMPT_COLOR), ([0x2588], WHITE)]]) =
     img_ops (draw_title_bar example_fonts (Image_new RGB (WIDTH, HEIGHT) BG_COLOR)) @
     [Text (24, 50) (py_str ''a'') TEXT_COLOR DefaultFont,
      Text (24, 116) (py_str ''$ '') PROMPT_COLOR DefaultFont,
      Text (42, 116) [0x2588] WHITE DefaultFont] \<and>
   snd (draw_lines example_pillow example_fonts
      [Str (py_str ''a''), Segs [], Other, Segs [(py_str ''$ '', PROMPT_COLOR), ([0x2588], WHITE)]]
      (Image_new RGB (WIDTH, HEIGHT) BG_COLOR, 50)) = 138 \<and>
   text_row (Text (24, 50) (py_str ''a'') TEXT_COLOR DefaultFont) = Some 50"
proof -
  let ?img = "Image_new RGB (WIDTH, HEIGHT) BG_COLOR"
  let ?segs = "[(py_str ''$ '', PROMPT_COLOR), ([0x2588], WHITE)]"
  let ?lines = "[Str (py_str ''a''), Segs [], Other, Segs ?segs]"
  note r0 = renderer_row_advance [where pil = example_pillow and fnts = example_fonts
      and lines = ?lines and img = ?img and y = 50 and line = "Str (py_str ''a'')"
      and s = "py_str ''a''" and segs = ?segs]
  note r1 = renderer_row_advance [where pil = example_pillow and fnts = example_fonts
      and lines = ?lines and img = ?img and y = 72 and line = "Segs []"
      and s = "py_str ''a''" and segs = ?segs]
  note r2 = renderer_row_advance [where pil = example_pillow and fnts = example_fonts
      and lines = ?lines and img = ?img and y = 94 and line = Other
      and s = "py_str ''a''" and segs = ?segs]
  note r3 = renderer_row_advance [where pil = example_pillow and fnts = example_fonts
      and lines = ?lines and img = ?img and y = 116 and line = "Segs ?segs"
      and s = "py_str ''a''" and segs = ?segs]
  have idx: "[0..<length ?lines] = [0, 1, 2, 3]" by (simp add: upt_rec)
  have w: "text_width example_pillow example_fonts (py_str ''$ '') = 18"
    by (simp add: text_width_def example_pillow_def py_str_def)
  have fnt: "font example_fonts = DefaultFont" by (simp add: example_fonts_def)
  from r0 have "row_ops example_pillow example_fonts 50 (Str (py_str ''a'')) =
      [Text (PADDING_X, 50) (py_str ''a'') TEXT_COLOR (font example_fonts)]"
    by blast
  then have row0: "row_ops example_pillow example_fonts 50 (Str (py_str ''a'')) =
      [Text (24, 50) (py_str ''a'') TEXT_COLOR DefaultFont]"
    by (simp add: fnt PADDING_X_def)
  from r1 have row1: "row_ops example_pillow example_fonts 72 (Segs []) = []" by blast
  from r2 have row2: "row_ops example_pillow example_fonts 94 Other = []" by blast
  from r3 have "row_ops example_pillow example_fonts 116 (Segs ?segs) =
      map (\<lambda>i. Text (PADDING_X + sum_list (map (\<lambda>sg. text_width example_pillow example_fonts (fst sg))
                     (take i ?segs)), 116)
                  (fst (?segs ! i)) (snd (?segs ! i)) (font example_fonts))
         [0..<length ?segs]"
    by blast
  then have row3: "row_ops example_pillow example_fonts 116 (Segs ?segs) =
      [Text (24, 116) (py_str ''$ '') PROMPT_COLOR DefaultFont,
       Text (42, 116) [0x2588] WHITE DefaultFont]"
    by (simp add: upt_rec w fnt PADDING_X_def)
  from r0 have "img_ops (create_frame example_pillow example_fonts ?lines) =
     img_ops (draw_title_bar example_fonts ?img) @
     concat (map (\<lambda>k. row_ops example_pillow example_fonts (PADDING_Y + int k * LINE_HEIGHT) (?lines ! k))
                 [0..<length ?lines])"
    by blast
  then have a: "img_ops (create_frame example_pillow example_fonts ?lines) =
     img_ops (draw_title_bar example_fonts ?img) @
     [Text (24, 50) (py_str ''a'') TEXT_COLOR DefaultFont,
      Text (24, 116) (py_str ''$ '') PROMPT_COLOR DefaultFont,
      Text (42, 116) [0x2588] WHITE DefaultFont]"
    unfolding idx by (simp add: PADDING_Y_def LINE_HEIGHT_def row0 row1 row2 row3)
  from r0 have "snd (draw_lines example_pillow example_fonts ?lines (?img, 50)) =
      50 + int (length ?lines) * LINE_HEIGHT"
    by blast
  then have b: "snd (draw_lines example_pillow example_fonts ?lines (?img, 50)) = 138"
    by (simp add: LINE_HEIGHT_def)
  from r0 have "\<forall>op \<in> set (row_ops example_pillow example_fonts 50 (Str (py_str ''a''))).
      text_row op = Some 50"
    by blast
  then have c: "text_row (Text (24, 50) (py_str ''a'') TEXT_COLOR DefaultFont) = Some 50"
    unfolding row0 by simp
  from a b c show ?thesis by blast
qed

section \<open>Font fallback\<close>

lemma font_try_fails:
  "(\<exists>e. truetype pil MENLO FONT_SIZE = Inl e) \<or> (\<exists>e. truetype pil MENLO 12 = Inl e) \<Longrightarrow>
   \<exists>e. font_try pil = Inl e"
  by (auto simp add: font_try_def split: sum.splits)

lemma font_setup_total: "\<exists>fs. font_setup pil = Inr fs"
  by (simp add: font_setup_def Let_def split: sum.splits)

text \<open>
  Claim C9. Font setup always returns; when loading the preferred font fails, at either
  size, all three fonts are the default font, and the script goes on to \<^verbatim>\<open>main\<close> with
  them.
\<close>

theorem font_fallback:
  "(\<exists>fs. font_setup pil = Inr fs) \<and>
   ((\<exists>e. truetype pil MENLO FONT_SIZE = Inl e) \<or> (\<exists>e. truetype pil MENLO 12 = Inl e) \<longrightarrow>
      font_setup pil =
        Inr \<lparr>font = load_default pil, font_bold = load_default pil, font_title = load_default pil\<rparr> \<and>
      script pil script_dir w =
        main pil \<lparr>font = load_default pil, font_bold = load_default pil,
                  font_title = load_default pil\<rparr> script_dir w)"
proof -
  have "font_setup pil =
        Inr \<lparr>font = load_default pil, font_bold = load_default pil, font_title = load_default pil\<rparr>"
    if "(\<exists>e. truetype pil MENLO FONT_SIZE = Inl e) \<or> (\<exists>e. truetype pil MENLO 12 = Inl e)"
  proof -
    from font_try_fails [OF that] obtain e where "font_try pil = Inl e" by blast
    then show ?thesis by (simp add: font_setup_def Let_def)
  qed
  then show ?thesis using font_setup_total [of pil] by (auto simp add: script_def)
qed

theorem font_fallback_witness:
  "truetype example_pillow MENLO FONT_SIZE = Inl OSError \<and>
   font_setup example_pillow =
     Inr \<lparr>font = DefaultFont, font_bold = DefaultFont, font_title = DefaultFont\<rparr>"
proof -
  have a: "truetype example_pillow MENLO FONT_SIZE = Inl OSError"
    by (simp add: example_pillow_def)
  then have "(\<exists>e. truetype example_pillow MENLO FONT_SIZE = Inl e) \<or>
             (\<exists>e. truetype example_pillow MENLO 12 = Inl e)" by blast
  with font_fallback [of example_pillow "[]" empty_world]
  have "font_setup example_pillow =
        Inr \<lparr>font = load_default example_pillow, font_bold = load_default example_pillow,
             font_title = load_default example_pillow\<rparr>" by blast
  moreover have "load_default example_pillow = DefaultFont" by (simp add: example_pillow_def)
  ultimately show ?thesis using a by simp
qed

section \<open>The encoder and the size guard\<close>

lemma optimize_loop: "fold optimize_step images acc =
    acc @ map (\<lambda>img. convert RGB (quantize 64 MEDIANCUT img)) images"
  by (induction images arbitrary: acc) (simp_all add: optimize_step_def)

lemma py_getitem_0: "xs \<noteq> [] \<Longrightarrow> py_getitem xs 0 = Inr (hd xs)"
  by (cases xs) (simp_all add: py_getitem_def Let_def)

lemma py_getitem_0_empty: "py_getitem [] 0 = Inl IndexError"
  by (simp add: py_getitem_def Let_def)

lemma hd_slice_from1: "xs \<noteq> [] \<Longrightarrow> hd xs # py_slice_from1 xs = xs"
  by (cases xs) (simp_all add: py_slice_from1_def)

lemma optimize_gif_eq:
  assumes "images \<noteq> []"
  shows "optimize_gif pil path images durations w =
     Inr (print (Optimized_size_MB (size_in_mb (encoded_size pil
             \<lparr>gif_frames = map (\<lambda>img. convert RGB (quantize 64 MEDIANCUT img)) images,
              gif_duration = durations, gif_loop = 0, gif_optimize = True\<rparr>)))
          (w\<lparr>files := (files w)(path \<mapsto>
             \<lparr>gif_frames = map (\<lambda>img. convert RGB (quantize 64 MEDIANCUT img)) images,
              gif_duration = durations, gif_loop = 0, gif_optimize = True\<rparr>)\<rparr>))"
proof -
  let ?opt = "map (\<lambda>img. convert RGB (quantize 64 MEDIANCUT img)) images"
  have ne: "?opt \<noteq> []" using assms by simp
  have loop: "fold optimize_step images [] = ?opt" by (simp add: optimize_loop)
  show ?thesis
    unfolding optimize_gif_def loop Let_def py_getitem_0 [OF ne]
    by (simp add: save_def getsize_def hd_slice_from1 [OF ne])
qed


lemma main_eq:
  assumes gen: "generate_frames pil fnts = Inr frames"
  shows "main pil fnts script_dir w =
     (if size_in_mb (encoded_size pil (initial_gif frames)) > 5
      then optimize_gif pil (OUTPUT_PATH script_dir) (map fst frames) (map snd frames)
             (print WARNING_exceeds_5MB (first_saved pil script_dir frames w))
      else Inr (first_saved pil script_dir frames w))"
proof -
  from gen have "length frames = 67"
    unfolding generate_frames_def by (rule generate_frames_with_length)
  then have ne: "map fst frames \<noteq> []" by auto
  have gif: "\<lparr>gif_frames = hd (map fst frames) # py_slice_from1 (map fst frames),
        gif_duration = map snd frames, gif_loop = 0, gif_optimize = True\<rparr> = initial_gif frames"
    by (simp only: hd_slice_from1 [OF ne] initial_gif_def)
  show ?thesis
    unfolding main_def gen Let_def sum.case py_getitem_0 [OF ne]
    by (simp add: save_def getsize_def print_def first_saved_def gif)
qed


















section \<open>The re-encoding step\<close>

lemma reencoded_image:
  "img_mode (convert RGB (quantize 64 MEDIANCUT img)) = RGB \<and>
   img_size (convert RGB (quantize 64 MEDIANCUT img)) = img_size img \<and>
   img_ops (convert RGB (quantize 64 MEDIANCUT img)) = img_ops img @ [Quantize 64 MEDIANCUT, Convert RGB]"
  by (simp add: convert_def quantize_def)

text \<open>
  Claim C8. When the re-encoder runs on a non-empty list of images it returns, and the
  file it leaves at the given path holds, for every image in order, that image
  quantized to 64 colours by median cut and converted back to RGB, with the duration
  list it was given and loop count 0; no other file changes. \<^verbatim>\<open>main\<close> calls it with the
  path, the frames and the duration list of the file it has just written, whose loop
  count is 0 as well.
\<close>

theorem reencoding_step:
  "(images \<noteq> [] \<longrightarrow>
      (\<exists>w' g. optimize_gif pil path images durations w = Inr w' \<and>
         files w' path = Some g \<and> (\<forall>p. p \<noteq> path \<longrightarrow> files w' p = files w p) \<and>
         length (gif_frames g) = length images \<and>
         (\<forall>k<length images.
            gif_frames g ! k = convert RGB (quantize 64 MEDIANCUT (images ! k)) \<and>
            img_mode (gif_frames g ! k) = RGB \<and>
            img_ops (gif_frames g ! k) = img_ops (images ! k) @ [Quantize 64 MEDIANCUT, Convert RGB]) \<and>
         gif_duration g = durations \<and> gif_loop g = 0 \<and> gif_optimize g = True \<and>
         stdout w' = stdout w @ [Optimized_size_MB (size_in_mb (encoded_size pil g))])) \<and>
   (\<exists>frames. generate_frames pil fnts = Inr frames \<and>
      files (first_saved pil script_dir frames w) (OUTPUT_PATH script_dir) = Some (initial_gif frames) \<and>
      gif_loop (initial_gif frames) = 0 \<and>
      main pil fnts script_dir w =
        (if size_in_mb (encoded_size pil (initial_gif frames)) > 5
         then optimize_gif pil (OUTPUT_PATH script_dir)
                (gif_frames (initial_gif frames)) (gif_duration (initial_gif frames))
                (print WARNING_exceeds_5MB (first_saved pil script_dir frames w))
         else Inr (first_saved pil script_dir frames w)))"
proof -
  let ?g = "\<lparr>gif_frames = map (\<lambda>img. convert RGB (quantize 64 MEDIANCUT img)) images,
             gif_duration = durations, gif_loop = 0, gif_optimize = True\<rparr>"
  let ?w = "print (Optimized_size_MB (size_in_mb (encoded_size pil ?g)))
              (w\<lparr>files := (files w)(path \<mapsto> ?g)\<rparr>)"
  have first: "\<exists>w' g. optimize_gif pil path images durations w = Inr w' \<and>
         files w' path = Some g \<and> (\<forall>p. p \<noteq> path \<longrightarrow> files w' p = files w p) \<and>
         length (gif_frames g) = length images \<and>
         (\<forall>k<length images.
            gif_frames g ! k = convert RGB (quantize 64 MEDIANCUT (images ! k)) \<and>
            img_mode (gif_frames g ! k) = RGB \<and>
            img_ops (gif_frames g ! k) = img_ops (images ! k) @ [Quantize 64 MEDIANCUT, Convert RGB]) \<and>
         gif_duration g = durations \<and> gif_loop g = 0 \<and> gif_optimize g = True \<and>
         stdout w' = stdout w @ [Optimized_size_MB (size_in_mb (encoded_size pil g))]"
    if ne: "images \<noteq> []"
  proof (intro exI [of _ ?w] exI [of _ ?g] conjI)
    show "optimize_gif pil path images durations w = Inr ?w" by (rule optimize_gif_eq [OF ne])
    show "files ?w path = Some ?g" by (simp add: print_def)
    show "\<forall>p. p \<noteq> path \<longrightarrow> files ?w p = files w p" by (simp add: print_def)
    show "length (gif_frames ?g) = length images" by simp
    show "\<forall>k<length images.
            gif_frames ?g ! k = convert RGB (quantize 64 MEDIANCUT (images ! k)) \<and>
            img_mode (gif_frames ?g ! k) = RGB \<and>
            img_ops (gif_frames ?g ! k) = img_ops (images ! k) @ [Quantize 64 MEDIANCUT, Convert RGB]"
      by (simp add: reencoded_image)
    show "gif_duration ?g = durations" "gif_loop ?g = 0" "gif_optimize ?g = True" by simp_all
    show "stdout ?w = stdout w @ [Optimized_size_MB (size_in_mb (encoded_size pil ?g))]"
      by (simp add: print_def)
  qed
  obtain frames where gen: "generate_frames pil fnts = Inr frames"
    unfolding generate_frames_def using generate_frames_with_eq by blast
  have a: "files (first_saved pil script_dir frames w) (OUTPUT_PATH script_dir) = Some (initial_gif frames)"
    by (simp add: first_saved_def)
  have b: "gif_loop (initial_gif frames) = 0" by (simp add: initial_gif_def)
  have c: "main pil fnts script_dir w =
        (if size_in_mb (encoded_size pil (initial_gif frames)) > 5
         then optimize_gif pil (OUTPUT_PATH script_dir)
                (gif_frames (initial_gif frames)) (gif_duration (initial_gif frames))
                (print WARNING_exceeds_5MB (first_saved pil script_dir frames w))
         else Inr (first_saved pil script_dir frames w))"
    unfolding main_eq [OF gen] by (simp add: initial_gif_def)
  from first gen a b c show ?thesis by blast
qed

theorem reencoding_step_witness:
  "\<exists>w' g. optimize_gif example_pillow (py_str ''a.gif'')
             [Image_new RGB (WIDTH, HEIGHT) BG_COLOR] [400] empty_world = Inr w' \<and>
     files w' (py_str ''a.gif'') = Some g \<and>
     gif_frames g ! 0 =
       \<lparr>img_mode = RGB, img_size = (WIDTH, HEIGHT), img_fill = BG_COLOR,
        img_ops = [Quantize 64 MEDIANCUT, Convert RGB]\<rparr> \<and>
     length (gif_frames g) = 1 \<and> gif_duration g = [400] \<and> gif_loop g = 0"
proof -
  let ?images = "[Image_new RGB (WIDTH, HEIGHT) BG_COLOR]"
  have ne: "?images \<noteq> []" by simp
  from reencoding_step [where images = ?images and pil = example_pillow and path = "py_str ''a.gif''"
      and durations = "[400]" and w = empty_world and fnts = example_fonts and script_dir = "[]"] ne
  obtain w' g where r: "optimize_gif example_pillow (py_str ''a.gif'') ?images [400] empty_world = Inr w'"
      "files w' (py_str ''a.gif'') = Some g" "length (gif_frames g) = length ?images"
      "\<forall>k<length ?images. gif_frames g ! k = convert RGB (quantize 64 MEDIANCUT (?images ! k)) \<and>
            img_mode (gif_frames g ! k) = RGB \<and>
            img_ops (gif_frames g ! k) = img_ops (?images ! k) @ [Quantize 64 MEDIANCUT, Convert RGB]"
      "gif_duration g = [400]" "gif_loop g = 0"
    by blast
  from r(4) have "gif_frames g ! 0 = convert RGB (quantize 64 MEDIANCUT (Image_new RGB (WIDTH, HEIGHT) BG_COLOR))"
    by simp
  then have f: "gif_frames g ! 0 =
       \<lparr>img_mode = RGB, img_size = (WIDTH, HEIGHT), img_fill = BG_COLOR,
        img_ops = [Quantize 64 MEDIANCUT, Convert RGB]\<rparr>"
    by (simp add: convert_def quantize_def Image_new_def)
  from r(3) have l: "length (gif_frames g) = 1" by simp
  from r(1,2,5,6) f l show ?thesis by blast
qed

end
